theory Spec2Isabelle
  imports Main "HOL-Library.Multiset" "HOL-Library.Word"
begin

section \<open>Strings\<close>

text \<open>
  A Go string is a sequence of bytes; it is modelled as a \<open>string\<close> (a list of 8-bit
  characters), and \<open>len\<close> is \<open>length\<close>. The functions of Go's \<open>strings\<close>
  package that the program calls are modelled from their documented behaviour.
  The program never reaches the range of a 64-bit \<open>int\<close> (every index is bounded by the
  length of a string in memory), so indices are natural numbers and configured numbers
  are integers.
\<close>

abbreviation TAB :: char where "TAB \<equiv> CHR 0x09"
abbreviation NL :: char where "NL \<equiv> CHR 0x0A"
abbreviation BSL :: char where "BSL \<equiv> CHR 0x5C"
abbreviation SP :: char where "SP \<equiv> CHR '' ''"

text \<open>
  \<open>unicode.IsSpace\<close>: the six ASCII white space bytes, and the UTF-8 encodings of
  U+0085, U+00A0, U+1680, U+2000..U+200A, U+2028, U+2029, U+202F, U+205F, U+3000.
  Every multi-byte encoding starts with a lead byte, which is never part of another
  rune, so decoding runes from the left or from the right finds a white space rune
  exactly where its bytes stand.
\<close>

definition asciiSpace :: "char \<Rightarrow> bool" where
  "asciiSpace c = (c = TAB \<or> c = NL \<or> c = CHR 0x0B \<or> c = CHR 0x0C \<or> c = CHR 0x0D \<or> c = SP)"

definition spaceRunes :: "string list" where
  "spaceRunes =
    [[CHR 0xC2, CHR 0x85], [CHR 0xC2, CHR 0xA0], [CHR 0xE1, CHR 0x9A, CHR 0x80],
     [CHR 0xE2, CHR 0x80, CHR 0x80], [CHR 0xE2, CHR 0x80, CHR 0x81],
     [CHR 0xE2, CHR 0x80, CHR 0x82], [CHR 0xE2, CHR 0x80, CHR 0x83],
     [CHR 0xE2, CHR 0x80, CHR 0x84], [CHR 0xE2, CHR 0x80, CHR 0x85],
     [CHR 0xE2, CHR 0x80, CHR 0x86], [CHR 0xE2, CHR 0x80, CHR 0x87],
     [CHR 0xE2, CHR 0x80, CHR 0x88], [CHR 0xE2, CHR 0x80, CHR 0x89],
     [CHR 0xE2, CHR 0x80, CHR 0x8A], [CHR 0xE2, CHR 0x80, CHR 0xA8],
     [CHR 0xE2, CHR 0x80, CHR 0xA9], [CHR 0xE2, CHR 0x80, CHR 0xAF],
     [CHR 0xE2, CHR 0x81, CHR 0x9F], [CHR 0xE3, CHR 0x80, CHR 0x80]]"

definition strings_HasPrefix :: "string \<Rightarrow> string \<Rightarrow> bool" where
  "strings_HasPrefix s p = (take (length p) s = p)"

definition strings_HasSuffix :: "string \<Rightarrow> string \<Rightarrow> bool" where
  "strings_HasSuffix s p = (length p \<le> length s \<and> drop (length s - length p) s = p)"

definition strings_TrimPrefix :: "string \<Rightarrow> string \<Rightarrow> string" where
  "strings_TrimPrefix s p = (if strings_HasPrefix s p then drop (length p) s else s)"

text \<open>The width in bytes of the white space rune at the head (at the end) of a string; 0 if none.\<close>

definition spaceWidth :: "string \<Rightarrow> nat" where
  "spaceWidth s =
    (case s of [] \<Rightarrow> 0
     | c # _ \<Rightarrow> if asciiSpace c then 1
        else (case filter (strings_HasPrefix s) spaceRunes of [] \<Rightarrow> 0 | r # _ \<Rightarrow> length r))"

definition spaceWidthEnd :: "string \<Rightarrow> nat" where
  "spaceWidthEnd s =
    (if s = [] then 0
     else if asciiSpace (last s) then 1
     else (case filter (strings_HasSuffix s) spaceRunes of [] \<Rightarrow> 0 | r # _ \<Rightarrow> length r))"

lemma spaceWidth_le: "spaceWidth s \<le> length s"
proof (cases s)
  case Nil
  then show ?thesis by (simp add: spaceWidth_def)
next
  case (Cons c t)
  show ?thesis
  proof (cases "filter (strings_HasPrefix s) spaceRunes")
    case Nil
    then show ?thesis using Cons by (simp add: spaceWidth_def)
  next
    case (Cons r rs)
    then have "r \<in> set (filter (strings_HasPrefix s) spaceRunes)" by simp
    then have "take (length r) s = r" by (simp add: strings_HasPrefix_def)
    then have "length r = min (length s) (length r)" by (metis length_take)
    then have "length r \<le> length s" by linarith
    then show ?thesis using Cons \<open>s = c # t\<close> by (simp add: spaceWidth_def)
  qed
qed

lemma spaceWidthEnd_le: "spaceWidthEnd s \<le> length s"
proof (cases "s = []")
  case True
  then show ?thesis by (simp add: spaceWidthEnd_def)
next
  case False
  show ?thesis
  proof (cases "filter (strings_HasSuffix s) spaceRunes")
    case Nil
    then show ?thesis using False by (cases s) (simp_all add: spaceWidthEnd_def)
  next
    case (Cons r rs)
    then have "r \<in> set (filter (strings_HasSuffix s) spaceRunes)" by simp
    then have "length r \<le> length s" by (simp add: strings_HasSuffix_def)
    then show ?thesis using Cons False by (cases s) (simp_all add: spaceWidthEnd_def)
  qed
qed

function trimLeftSpace :: "string \<Rightarrow> string" where
  "trimLeftSpace s = (if spaceWidth s = 0 then s else trimLeftSpace (drop (spaceWidth s) s))"
  by pat_completeness auto
termination
proof (relation "measure length")
  show "wf (measure length)" by simp
next
  fix s :: string
  assume "spaceWidth s \<noteq> 0"
  moreover have "spaceWidth s \<le> length s" by (rule spaceWidth_le)
  ultimately show "(drop (spaceWidth s) s, s) \<in> measure length" by simp
qed

function trimRightSpace :: "string \<Rightarrow> string" where
  "trimRightSpace s =
    (if spaceWidthEnd s = 0 then s else trimRightSpace (take (length s - spaceWidthEnd s) s))"
  by pat_completeness auto
termination
proof (relation "measure length")
  show "wf (measure length)" by simp
next
  fix s :: string
  assume "spaceWidthEnd s \<noteq> 0"
  moreover have "spaceWidthEnd s \<le> length s" by (rule spaceWidthEnd_le)
  ultimately show "(take (length s - spaceWidthEnd s) s, s) \<in> measure length" by simp
qed

declare trimLeftSpace.simps [simp del] trimRightSpace.simps [simp del]

definition strings_TrimSpace :: "string \<Rightarrow> string" where
  "strings_TrimSpace s = trimRightSpace (trimLeftSpace s)"

text \<open>\<open>strings.TrimRight(s, cutset)\<close> for a cutset of ASCII characters.\<close>

definition strings_TrimRight :: "string \<Rightarrow> string \<Rightarrow> string" where
  "strings_TrimRight s cutset = rev (dropWhile (\<lambda>c. c \<in> set cutset) (rev s))"

text \<open>\<open>strings.Index\<close>, \<open>strings.IndexAny\<close>: \<open>None\<close> stands for the result -1.\<close>

fun strings_Index :: "string \<Rightarrow> string \<Rightarrow> nat option" where
  "strings_Index [] sub = (if sub = [] then Some 0 else None)"
| "strings_Index (c # t) sub =
    (if take (length sub) (c # t) = sub then Some 0 else map_option Suc (strings_Index t sub))"

definition strings_Contains :: "string \<Rightarrow> string \<Rightarrow> bool" where
  "strings_Contains s sub = (strings_Index s sub \<noteq> None)"

fun strings_IndexAny :: "string \<Rightarrow> string \<Rightarrow> nat option" where
  "strings_IndexAny [] chars = None"
| "strings_IndexAny (c # t) chars =
    (if c \<in> set chars then Some 0 else map_option Suc (strings_IndexAny t chars))"

definition strings_ContainsAny :: "string \<Rightarrow> string \<Rightarrow> bool" where
  "strings_ContainsAny s chars = (strings_IndexAny s chars \<noteq> None)"

text \<open>\<open>strings.Split(s, "\n")\<close> and \<open>strings.SplitAfter(s, "\n")\<close>: never empty.\<close>

fun strings_Split :: "string \<Rightarrow> string list" where
  "strings_Split [] = [[]]"
| "strings_Split (c # t) =
    (if c = NL then [] # strings_Split t
     else (case strings_Split t of [] \<Rightarrow> [[c]] | l # ls \<Rightarrow> (c # l) # ls))"

fun strings_SplitAfter :: "string \<Rightarrow> string list" where
  "strings_SplitAfter [] = [[]]"
| "strings_SplitAfter (c # t) =
    (if c = NL then [c] # strings_SplitAfter t
     else (case strings_SplitAfter t of [] \<Rightarrow> [[c]] | l # ls \<Rightarrow> (c # l) # ls))"

fun strings_Join :: "string list \<Rightarrow> string \<Rightarrow> string" where
  "strings_Join [] sep = []"
| "strings_Join [x] sep = x"
| "strings_Join (x # y # ys) sep = x @ sep @ strings_Join (y # ys) sep"

text \<open>
  \<open>strings.Fields\<close>: the maximal runs of bytes between white space runes. \<open>cur\<close> is
  the field being read, reversed.
\<close>

function fieldsFrom :: "string \<Rightarrow> string \<Rightarrow> string list" where
  "fieldsFrom cur s =
    (if s = [] then (if cur = [] then [] else [rev cur])
     else if spaceWidth s = 0 then fieldsFrom (hd s # cur) (tl s)
     else (if cur = [] then [] else [rev cur]) @ fieldsFrom [] (drop (spaceWidth s) s))"
  by pat_completeness auto
termination
proof (relation "measure (\<lambda>(cur, s). length s)")
  show "wf (measure (\<lambda>(cur, s). length s))" by simp
next
  fix cur s :: string
  assume "s \<noteq> []"
  then show "((hd s # cur, tl s), (cur, s)) \<in> measure (\<lambda>(cur, s). length s)"
    by (cases s) simp_all
next
  fix cur s :: string
  assume "s \<noteq> []" "spaceWidth s \<noteq> 0"
  then show "(([], drop (spaceWidth s) s), (cur, s)) \<in> measure (\<lambda>(cur, s). length s)"
    by simp
qed

declare fieldsFrom.simps [simp del]

definition strings_Fields :: "string \<Rightarrow> string list" where
  "strings_Fields s = fieldsFrom [] s"


section \<open>The node model (internal/parser/ast.go)\<close>

datatype NodeType =
  NodeComment | NodeSectionHeader | NodeBannerComment | NodeBlankLine | NodeAssignment
  | NodeRule | NodeRecipe | NodeConditional | NodeInclude | NodeDirective | NodeRaw

record NodeFields =
  VarName :: string
  AssignOp :: string
  VarValue :: string
  Targets :: "string list"
  Prerequisites :: "string list"
  OrderOnly :: "string list"
  InlineHelp :: string
  Directive :: string
  Condition :: string
  IncludeType :: string
  Paths :: "string list"
  Text :: string
  Inline :: bool
  Prefix :: string

datatype Node =
  Node (Type: NodeType) (Line: nat) (Raw: string) (Children: "Node list") (Fields: NodeFields)

text \<open>The zero value of \<open>NodeFields\<close>, and a node literal that sets \<open>Type\<close>, \<open>Raw\<close> and \<open>Fields\<close>.\<close>

definition noFields :: NodeFields where
  "noFields = \<lparr>VarName = [], AssignOp = [], VarValue = [], Targets = [], Prerequisites = [],
     OrderOnly = [], InlineHelp = [], Directive = [], Condition = [], IncludeType = [],
     Paths = [], Text = [], Inline = False, Prefix = []\<rparr>"

definition mkNode :: "NodeType \<Rightarrow> string \<Rightarrow> NodeFields \<Rightarrow> Node" where
  "mkNode t raw f = Node t 0 raw [] f"

fun setType :: "Node \<Rightarrow> NodeType \<Rightarrow> Node" where
  "setType (Node t l r ch f) t' = Node t' l r ch f"

fun setLine :: "Node \<Rightarrow> nat \<Rightarrow> Node" where
  "setLine (Node t l r ch f) l' = Node t l' r ch f"

fun setRaw :: "Node \<Rightarrow> string \<Rightarrow> Node" where
  "setRaw (Node t l r ch f) r' = Node t l r' ch f"

fun setChildren :: "Node \<Rightarrow> Node list \<Rightarrow> Node" where
  "setChildren (Node t l r ch f) ch' = Node t l r ch' f"

fun setFields :: "Node \<Rightarrow> NodeFields \<Rightarrow> Node" where
  "setFields (Node t l r ch f) f' = Node t l r ch f'"

definition cloneStrings :: "string list \<Rightarrow> string list" where
  "cloneStrings s = map (\<lambda>x. x) s"

definition clone :: "NodeFields \<Rightarrow> NodeFields" where
  "clone f = f\<lparr>Targets := cloneStrings (Targets f), Prerequisites := cloneStrings (Prerequisites f),
     OrderOnly := cloneStrings (OrderOnly f), Paths := cloneStrings (Paths f)\<rparr>"

fun Clone :: "Node \<Rightarrow> Node" where
  "Clone (Node t l r ch f) = Node t l r (map Clone ch) (clone f)"

section \<open>The parser (internal/parser/parser.go)\<close>

datatype error = IndexOutOfRange | SliceOutOfRange

definition assignOps :: "string list" where
  "assignOps = [''::='', ''!='', ''?='', ''+='', '':='', ''='']"

text \<open>
  The keyword tables are Go maps. The program iterates over the first two in an
  unspecified order and returns at the first keyword that matches; at most one keyword
  of a table matches a line (\<open>conditional_keyword_unique\<close>, \<open>include_keyword_unique\<close>
  below), so the order of the lists here does not matter.
\<close>

definition conditionalKeywords :: "string list" where
  "conditionalKeywords = [''ifeq'', ''ifneq'', ''ifdef'', ''ifndef'', ''else'', ''endif'']"

definition includeKeywords :: "string list" where
  "includeKeywords = [''include'', ''-include'', ''sinclude'']"

definition directiveKeywords :: "string list" where
  "directiveKeywords = [''.PHONY'', ''.DEFAULT_GOAL'', ''.SUFFIXES'', ''.DELETE_ON_ERROR'',
     ''.SECONDARY'', ''.PRECIOUS'', ''.INTERMEDIATE'', ''.NOTPARALLEL'', ''.ONESHELL'',
     ''.POSIX'', ''.SILENT'', ''.IGNORE'', ''.EXPORT_ALL_VARIABLES'', ''export'',
     ''unexport'', ''vpath'', ''override'']"

text \<open>
  \<open>bannerRe\<close> is the regular expression
  \<^verbatim>\<open>^#+$|^#\s*[=\-#]{3,}\s*$|^#{2,}\s+.*\s+#{2,}$\<close>. Each alternative is anchored at both
  ends, so \<open>MatchString\<close> decides membership of the whole string in one of three
  languages. \<^verbatim>\<open>\s\<close> is \<^verbatim>\<open>[\t\n\f\r ]\<close> and \<^verbatim>\<open>.\<close> is any character but a newline.
  In the second alternative the class of separators and \<^verbatim>\<open>\s\<close> are disjoint, so each
  starred part takes a maximal run. In the third the leading and the trailing run of
  \<^verbatim>\<open>#\<close> are taken whole (the next character must be in \<^verbatim>\<open>\s\<close>), and the middle
  must split into white space, characters without a newline, and white space.
\<close>

definition reSpace :: "char \<Rightarrow> bool" where
  "reSpace c = (c = TAB \<or> c = NL \<or> c = CHR 0x0C \<or> c = CHR 0x0D \<or> c = SP)"

definition reSep :: "char \<Rightarrow> bool" where
  "reSep c = (c = CHR ''='' \<or> c = CHR ''-'' \<or> c = CHR ''#'')"

definition isHash :: "char \<Rightarrow> bool" where
  "isHash c = (c = CHR ''#'')"

definition bannerAlt1 :: "string \<Rightarrow> bool" where
  "bannerAlt1 s = (s \<noteq> [] \<and> list_all isHash s)"

definition bannerAlt2 :: "string \<Rightarrow> bool" where
  "bannerAlt2 s =
    (case s of [] \<Rightarrow> False
     | c # r \<Rightarrow> isHash c \<and>
        (let r1 = dropWhile reSpace r
         in 3 \<le> length (takeWhile reSep r1) \<and> list_all reSpace (dropWhile reSep r1)))"

definition reSpacesAnySpaces :: "string \<Rightarrow> bool" where
  "reSpacesAnySpaces m =
    (let r = dropWhile reSpace m
     in if r = [] then 2 \<le> length m
        else takeWhile reSpace m \<noteq> [] \<and> takeWhile reSpace (rev r) \<noteq> [] \<and>
             NL \<notin> set (dropWhile reSpace (rev r)))"

definition bannerAlt3 :: "string \<Rightarrow> bool" where
  "bannerAlt3 s =
    (let r = dropWhile isHash s
     in 2 \<le> length (takeWhile isHash s) \<and> 2 \<le> length (takeWhile isHash (rev r)) \<and>
        reSpacesAnySpaces (rev (dropWhile isHash (rev r))))"

definition bannerRe_MatchString :: "string \<Rightarrow> bool" where
  "bannerRe_MatchString s = (bannerAlt1 s \<or> bannerAlt2 s \<or> bannerAlt3 s)"

record state =
  inRule :: bool
  inDefine :: bool
  nodes :: "Node list"
  lineNum :: nat

fun findRuleParentFrom :: "Node list \<Rightarrow> nat \<Rightarrow> nat option" where
  "findRuleParentFrom ns 0 = None"
| "findRuleParentFrom ns (Suc i) =
    (if Type (ns ! i) = NodeRule then Some i
     else (case Type (ns ! i) of
        NodeRecipe \<Rightarrow> findRuleParentFrom ns i
      | NodeComment \<Rightarrow> findRuleParentFrom ns i
      | NodeBannerComment \<Rightarrow> findRuleParentFrom ns i
      | NodeSectionHeader \<Rightarrow> findRuleParentFrom ns i
      | NodeBlankLine \<Rightarrow> findRuleParentFrom ns i
      | _ \<Rightarrow> None))"

text \<open>The parent is a pointer into \<open>p.nodes\<close>; the model returns its index.\<close>

definition findRuleParent :: "state \<Rightarrow> nat option" where
  "findRuleParent p = findRuleParentFrom (nodes p) (length (nodes p))"

definition appendNode :: "state \<Rightarrow> Node \<Rightarrow> state" where
  "appendNode p node = p\<lparr>nodes := nodes p @ [node]\<rparr>"

definition addNode :: "state \<Rightarrow> Node \<Rightarrow> state" where
  "addNode p node =
    (case Type node of
       NodeRule \<Rightarrow> appendNode (p\<lparr>inRule := True\<rparr>) node
     | NodeRecipe \<Rightarrow>
        (case (if 0 < length (nodes p) then findRuleParent p else None) of
           Some i \<Rightarrow>
             p\<lparr>nodes := (nodes p)[i := setChildren (nodes p ! i) (Children (nodes p ! i) @ [node])]\<rparr>
         | None \<Rightarrow> appendNode p (setType node NodeRaw))
     | NodeBlankLine \<Rightarrow> appendNode (p\<lparr>inRule := False\<rparr>) node
     | NodeComment \<Rightarrow> appendNode p node
     | NodeSectionHeader \<Rightarrow> appendNode p node
     | NodeBannerComment \<Rightarrow> appendNode p node
     | _ \<Rightarrow> appendNode (p\<lparr>inRule := False\<rparr>) node)"

function defineLoop :: "string list \<Rightarrow> nat \<Rightarrow> string list \<Rightarrow> nat \<times> string list" where
  "defineLoop lines i rawParts =
    (if i < length lines then
       (if strings_TrimSpace (lines ! i) = ''endef'' then (i, rawParts @ [lines ! i])
        else defineLoop lines (i + 1) (rawParts @ [lines ! i]))
     else (i, rawParts))"
  by pat_completeness auto
termination
  by (relation "measure (\<lambda>(lines, i, rawParts). length lines - i)") auto

declare defineLoop.simps [simp del]

text \<open>
  \<open>defineNode\<close> points to the last node of \<open>p.nodes\<close>; on both ways out of the loop
  its \<open>Raw\<close> becomes the joined lines and \<open>inDefine\<close> is cleared.
\<close>

definition handleDefineBlock :: "string list \<Rightarrow> state \<Rightarrow> error + state" where
  "handleDefineBlock lines p =
    (if nodes p = [] then Inl IndexOutOfRange
     else (case defineLoop lines (lineNum p) [Raw (last (nodes p))] of
        (i, rawParts) \<Rightarrow>
          Inr (p\<lparr>inDefine := False, lineNum := i,
                 nodes := butlast (nodes p) @ [setRaw (last (nodes p)) (strings_Join rawParts [NL])]\<rparr>)))"

definition isBannerComment :: "string \<Rightarrow> bool" where
  "isBannerComment trimmed =
    (if \<not> strings_HasPrefix trimmed ''#'' then False
     else if trimmed = ''#'' then False
     else bannerRe_MatchString trimmed)"

definition parseComment :: "string \<Rightarrow> string \<Rightarrow> Node" where
  "parseComment trimmed raw =
    (let prefix = (if strings_HasPrefix trimmed ''##'' \<and> \<not> strings_HasPrefix trimmed ''##@''
                   then ''##'' else ''#'');
         text = strings_TrimSpace (strings_TrimPrefix trimmed prefix)
     in mkNode NodeComment raw (noFields\<lparr>Text := text, Prefix := prefix\<rparr>))"

definition keywordMatches :: "string \<Rightarrow> string \<Rightarrow> bool" where
  "keywordMatches trimmed keyword =
    (trimmed = keyword \<or> strings_HasPrefix trimmed (keyword @ '' '') \<or>
     strings_HasPrefix trimmed (keyword @ [TAB]))"

definition afterKeyword :: "string \<Rightarrow> string \<Rightarrow> string" where
  "afterKeyword trimmed keyword =
    (if length keyword < length trimmed then strings_TrimSpace (drop (length keyword) trimmed)
     else [])"

definition tryConditional :: "string \<Rightarrow> string \<Rightarrow> Node option" where
  "tryConditional trimmed raw =
    (case filter (keywordMatches trimmed) conditionalKeywords of
       [] \<Rightarrow> None
     | keyword # _ \<Rightarrow>
         Some (mkNode NodeConditional raw
           (noFields\<lparr>Directive := keyword, Condition := afterKeyword trimmed keyword\<rparr>)))"

definition tryInclude :: "string \<Rightarrow> string \<Rightarrow> Node option" where
  "tryInclude trimmed raw =
    (case filter (keywordMatches trimmed) includeKeywords of
       [] \<Rightarrow> None
     | keyword # _ \<Rightarrow>
         (let pathStr = afterKeyword trimmed keyword;
              paths = (if pathStr \<noteq> [] then strings_Fields pathStr else [])
          in Some (mkNode NodeInclude raw (noFields\<lparr>IncludeType := keyword, Paths := paths\<rparr>))))"

text \<open>
  \<open>tryAssignment\<close>: the loop over \<open>assignOps\<close>; every \<open>continue\<close> is the recursive
  call on the remaining operators. \<open>assignmentName\<close> is the name after the test for
  embedded blanks (\<open>None\<close> where the source continues).
\<close>

definition assignmentName :: "string \<Rightarrow> string option" where
  "assignmentName varName =
    (if strings_ContainsAny varName [SP, TAB] then
       (let parts = strings_Fields varName
        in if length parts = 2 \<and> parts ! 0 = ''override'' then Some (''override '' @ parts ! 1)
           else None)
     else Some varName)"

fun tryAssignmentOps :: "string list \<Rightarrow> string \<Rightarrow> string \<Rightarrow> Node option" where
  "tryAssignmentOps [] trimmed raw = None"
| "tryAssignmentOps (op # ops) trimmed raw =
    (case strings_Index trimmed op of
       None \<Rightarrow> tryAssignmentOps ops trimmed raw
     | Some idx \<Rightarrow>
        if op = ''='' \<and> 0 < idx \<and> trimmed ! (idx - 1) \<in> set '':?+!''
          then tryAssignmentOps ops trimmed raw
        else if op = '':='' \<and> 0 < idx \<and> trimmed ! (idx - 1) = CHR '':''
          then tryAssignmentOps ops trimmed raw
        else if strings_TrimSpace (take idx trimmed) = []
          then tryAssignmentOps ops trimmed raw
        else (case assignmentName (strings_TrimSpace (take idx trimmed)) of
           None \<Rightarrow> tryAssignmentOps ops trimmed raw
         | Some varName \<Rightarrow>
            if strings_Contains varName '':'' \<and> op = ''=''
              then tryAssignmentOps ops trimmed raw
            else
              (let afterOp = idx + length op;
                   varValue = (if afterOp < length trimmed
                               then strings_TrimSpace (drop afterOp trimmed) else [])
               in Some (mkNode NodeAssignment raw
                    (noFields\<lparr>VarName := varName, AssignOp := op, VarValue := varValue\<rparr>)))))"

definition tryAssignment :: "string \<Rightarrow> string \<Rightarrow> Node option" where
  "tryAssignment trimmed raw = tryAssignmentOps assignOps trimmed raw"

definition findRuleColon :: "string \<Rightarrow> nat option" where
  "findRuleColon line =
    (if list_ex (strings_Contains line) assignOps then None else strings_Index line '':'')"

definition tryRule :: "string \<Rightarrow> string \<Rightarrow> Node option" where
  "tryRule trimmed raw =
    (case findRuleColon trimmed of
       None \<Rightarrow> None
     | Some colonIdx \<Rightarrow>
        if strings_TrimSpace (take colonIdx trimmed) = [] then None
        else
          (let targets = strings_Fields (strings_TrimSpace (take colonIdx trimmed));
               rest0 = (if colonIdx + 1 < length trimmed
                        then strings_TrimSpace (drop (colonIdx + 1) trimmed) else []);
               inlineHelp = (case strings_Index rest0 ''##'' of None \<Rightarrow> []
                             | Some helpIdx \<Rightarrow> strings_TrimSpace (drop (helpIdx + 2) rest0));
               rest = (case strings_Index rest0 ''##'' of None \<Rightarrow> rest0
                       | Some helpIdx \<Rightarrow> strings_TrimSpace (take helpIdx rest0));
               prerequisites =
                 (case strings_Index rest ''|'' of
                    Some pipeIdx \<Rightarrow>
                      (if strings_TrimSpace (take pipeIdx rest) \<noteq> []
                       then strings_Fields (strings_TrimSpace (take pipeIdx rest)) else [])
                  | None \<Rightarrow> (if rest \<noteq> [] then strings_Fields rest else []));
               orderOnly =
                 (case strings_Index rest ''|'' of
                    Some pipeIdx \<Rightarrow>
                      (if strings_TrimSpace (drop (pipeIdx + 1) rest) \<noteq> []
                       then strings_Fields (strings_TrimSpace (drop (pipeIdx + 1) rest)) else [])
                  | None \<Rightarrow> [])
           in Some (mkNode NodeRule raw
                (noFields\<lparr>Targets := targets, Prerequisites := prerequisites,
                   OrderOnly := orderOnly, InlineHelp := inlineHelp\<rparr>))))"

definition tryDirective :: "string \<Rightarrow> string \<Rightarrow> Node option" where
  "tryDirective trimmed raw =
    (let firstWord = (case strings_IndexAny trimmed ([SP, TAB] @ '':'') of
                        Some idx \<Rightarrow> take idx trimmed | None \<Rightarrow> trimmed)
     in if firstWord \<in> set directiveKeywords
        then Some (mkNode NodeDirective raw (noFields\<lparr>Text := trimmed\<rparr>))
        else None)"

text \<open>\<open>classifyLine\<close> returns the node and the state, whose \<open>inDefine\<close> it may set.\<close>

definition classifyLine :: "state \<Rightarrow> string \<Rightarrow> string \<Rightarrow> Node \<times> state" where
  "classifyLine p joined raw =
    (let trimmed = strings_TrimSpace joined
     in if trimmed = [] then (mkNode NodeBlankLine raw noFields, p)
        else if strings_HasPrefix trimmed ''define '' \<or> trimmed = ''define''
          then (mkNode NodeRaw raw noFields, p\<lparr>inDefine := True\<rparr>)
        else if strings_HasPrefix trimmed ''##@''
          then (mkNode NodeSectionHeader raw
                  (noFields\<lparr>Text := strings_TrimSpace (drop 3 trimmed), Prefix := ''##@''\<rparr>), p)
        else if isBannerComment trimmed
          then (mkNode NodeBannerComment raw (noFields\<lparr>Text := trimmed\<rparr>), p)
        else if strings_HasPrefix trimmed ''#'' then (parseComment trimmed raw, p)
        else if strings_HasPrefix joined [TAB] \<and> inRule p
          then (mkNode NodeRecipe raw (noFields\<lparr>Text := strings_TrimPrefix joined [TAB]\<rparr>), p)
        else (case tryConditional trimmed raw of Some node \<Rightarrow> (node, p) | None \<Rightarrow>
             (case tryInclude trimmed raw of Some node \<Rightarrow> (node, p) | None \<Rightarrow>
             (case tryDirective trimmed raw of Some node \<Rightarrow> (node, p) | None \<Rightarrow>
             (case tryAssignment trimmed raw of Some node \<Rightarrow> (node, p) | None \<Rightarrow>
             (case tryRule trimmed raw of Some node \<Rightarrow> (node, p) | None \<Rightarrow>
             (mkNode NodeRaw raw noFields, p)))))))"

definition splitLines :: "string \<Rightarrow> string list" where
  "splitLines src =
    (if src = [] then []
     else (let lines = strings_Split src
           in if 0 < length lines \<and> last lines = [] then butlast lines else lines))"

definition hasContinuation :: "string \<Rightarrow> bool" where
  "hasContinuation line = strings_HasSuffix (strings_TrimRight line [SP, TAB]) [BSL]"

function joinLoop :: "string list \<Rightarrow> nat \<Rightarrow> string list \<Rightarrow> error + (string list \<times> nat)" where
  "joinLoop lines i parts =
    (if i < length lines \<and> hasContinuation (lines ! i) then
       (let line = strings_TrimRight (lines ! i) [SP, TAB]
        in if line = [] then Inl SliceOutOfRange
           else joinLoop lines (i + 1) (parts @ [take (length line - 1) line]))
     else Inr (parts, i))"
  by pat_completeness auto
termination
  by (relation "measure (\<lambda>(lines, i, parts). length lines - i)") auto

declare joinLoop.simps [simp del]

definition joinContinuations :: "string list \<Rightarrow> nat \<Rightarrow> error + (string \<times> nat)" where
  "joinContinuations lines start =
    (if length lines \<le> start then Inl IndexOutOfRange
     else if \<not> hasContinuation (lines ! start) then Inr (lines ! start, 1)
     else (case joinLoop lines start [] of
        Inl e \<Rightarrow> Inl e
      | Inr (parts, i) \<Rightarrow>
          if i < length lines then Inr (strings_Join (parts @ [lines ! i]) '' '', i + 1 - start)
          else Inr (strings_Join parts '' '', i - start)))"


lemma defineLoop_lineNum: "i \<le> fst (defineLoop lines i rawParts)"
proof (induction lines i rawParts rule: defineLoop.induct)
  case (1 lines i rawParts)
  show ?case
  proof (cases "i < length lines \<and> strings_TrimSpace (lines ! i) \<noteq> ''endef''")
    case True
    then have "i + 1 \<le> fst (defineLoop lines (i + 1) (rawParts @ [lines ! i]))"
      using "1.IH" by simp
    then show ?thesis using True by (subst defineLoop.simps) simp
  next
    case False
    then show ?thesis by (subst defineLoop.simps) auto
  qed
qed

lemma handleDefineBlock_lineNum:
  "handleDefineBlock lines p = Inr p' \<Longrightarrow> lineNum p \<le> lineNum p'"
  using defineLoop_lineNum [of "lineNum p" lines "[Raw (last (nodes p))]"]
  by (auto simp: handleDefineBlock_def split: if_splits prod.splits)

lemma classifyLine_lineNum: "classifyLine p joined raw = (node, p1) \<Longrightarrow> lineNum p1 = lineNum p"
  by (auto simp: classifyLine_def Let_def split: if_splits option.splits)

lemma addNode_lineNum: "lineNum (addNode p node) = lineNum p"
  by (simp add: addNode_def appendNode_def split: NodeType.splits option.splits)

function parseLoop :: "string list \<Rightarrow> state \<Rightarrow> error + state" where
  "parseLoop lines p =
    (if lineNum p < length lines then
       (if inDefine p then
          (case handleDefineBlock lines p of
             Inl e \<Rightarrow> Inl e
           | Inr p' \<Rightarrow> parseLoop lines (p'\<lparr>lineNum := lineNum p' + 1\<rparr>))
        else
          (case joinContinuations lines (lineNum p) of
             Inl e \<Rightarrow> Inl e
           | Inr (joined, cnt) \<Rightarrow>
              if length lines < lineNum p + cnt then Inl SliceOutOfRange
              else
                (case classifyLine p joined
                        (strings_Join (take cnt (drop (lineNum p) lines)) [NL]) of
                   (node, p1) \<Rightarrow>
                     (let p2 = (if 1 < cnt then p1\<lparr>lineNum := lineNum p1 + (cnt - 1)\<rparr>
                                else p1);
                          p3 = addNode p2 (setLine node (lineNum p + 1))
                      in parseLoop lines (p3\<lparr>lineNum := lineNum p3 + 1\<rparr>)))))
     else Inr p)"
  by pat_completeness auto
termination
proof (relation "measure (\<lambda>(lines, p). length lines - lineNum p)")
  show "wf (measure (\<lambda>(lines, p). length lines - lineNum p))" by simp
next
  fix lines :: "string list" and p p' :: state
  assume "lineNum p < length lines" "handleDefineBlock lines p = Inr p'"
  then show "((lines, p'\<lparr>lineNum := lineNum p' + 1\<rparr>), (lines, p))
      \<in> measure (\<lambda>(lines, p). length lines - lineNum p)"
    using handleDefineBlock_lineNum [of lines p p'] by simp
next
  fix lines :: "string list" and p p1 p2 p3 :: state and x2 joined cnt node
  assume a: "lineNum p < length lines"
    and c: "(node, p1) = classifyLine p joined
              (strings_Join (take cnt (drop (lineNum p) lines)) [NL])"
    and p2: "p2 = (if 1 < cnt then p1\<lparr>lineNum := lineNum p1 + (cnt - 1)\<rparr> else p1)"
    and p3: "p3 = addNode p2 (setLine node (lineNum p + 1))"
  have "lineNum p1 = lineNum p" using classifyLine_lineNum [OF c [symmetric]] .
  then have "lineNum p \<le> lineNum p2" using p2 by (cases "1 < cnt") simp_all
  then have "lineNum p \<le> lineNum p3" using p3 by (simp only: addNode_lineNum)
  then show "((lines, p3\<lparr>lineNum := lineNum p3 + 1\<rparr>), (lines, p))
      \<in> measure (\<lambda>(lines, p). length lines - lineNum p)"
    using a by simp
qed

declare parseLoop.simps [simp del]

definition Parse :: "string \<Rightarrow> error + Node list" where
  "Parse src =
    (case parseLoop (splitLines src) \<lparr>inRule = False, inDefine = False, nodes = [], lineNum = 0\<rparr> of
       Inl e \<Rightarrow> Inl e
     | Inr p \<Rightarrow> Inr (nodes p))"

section \<open>The writer\<close>

definition writeComment :: "NodeFields \<Rightarrow> string" where
  "writeComment f = Prefix f @ (if Text f \<noteq> [] then '' '' @ Text f else [])"

definition writeSectionHeader :: "NodeFields \<Rightarrow> string" where
  "writeSectionHeader f = Prefix f @ (if Text f \<noteq> [] then '' '' @ Text f else [])"

definition writeAssignment :: "NodeFields \<Rightarrow> string" where
  "writeAssignment f =
    VarName f @ '' '' @ AssignOp f @ (if VarValue f \<noteq> [] then '' '' @ VarValue f else [])"

definition writeRule :: "NodeFields \<Rightarrow> string" where
  "writeRule f =
    strings_Join (Targets f) '' '' @ '':'' @
    (if 0 < length (Prerequisites f) then '' '' @ strings_Join (Prerequisites f) '' '' else []) @
    (if 0 < length (OrderOnly f) then '' | '' @ strings_Join (OrderOnly f) '' '' else []) @
    (if InlineHelp f \<noteq> [] then '' ## '' @ InlineHelp f else [])"

definition writeConditional :: "NodeFields \<Rightarrow> string" where
  "writeConditional f = Directive f @ (if Condition f \<noteq> [] then '' '' @ Condition f else [])"

definition writeInclude :: "NodeFields \<Rightarrow> string" where
  "writeInclude f =
    IncludeType f @ (if 0 < length (Paths f) then '' '' @ strings_Join (Paths f) '' '' else [])"

text \<open>\<open>writeNode\<close> with \<open>writeChildren\<close> inlined: every child on a new line of its own.\<close>

fun writeNode :: "Node \<Rightarrow> string" where
  "writeNode (Node t l raw ch f) =
    (if raw \<noteq> [] then raw @ concat (map (\<lambda>child. [NL] @ writeNode child) ch)
     else
       (case t of
          NodeBlankLine \<Rightarrow> []
        | NodeComment \<Rightarrow> writeComment f
        | NodeSectionHeader \<Rightarrow> writeSectionHeader f
        | NodeBannerComment \<Rightarrow> Text f
        | NodeAssignment \<Rightarrow> writeAssignment f
        | NodeRule \<Rightarrow> writeRule f
        | NodeRecipe \<Rightarrow> [TAB] @ Text f
        | NodeConditional \<Rightarrow> writeConditional f
        | NodeInclude \<Rightarrow> writeInclude f
        | NodeDirective \<Rightarrow> Text f
        | NodeRaw \<Rightarrow> Text f)
       @ concat (map (\<lambda>child. [NL] @ writeNode child) ch))"

definition Write :: "Node list \<Rightarrow> string" where
  "Write ns = concat (map (\<lambda>n. writeNode n @ [NL]) ns)"


section \<open>The configuration (internal/config/config.go)\<close>

record FormatterConfig =
  IndentStyle :: string
  TabWidth :: int
  MaxBlankLines :: int
  InsertFinalNewline :: bool
  TrimTrailingWhitespace :: bool
  AlignAssignments :: bool
  AssignmentSpacing :: string
  SortPrerequisites :: bool
  AlignBackslashContinuations :: bool
  BackslashColumn :: "64 word"
  SpaceAfterComment :: bool
  IndentConditionals :: bool
  ConditionalIndent :: int
  RecipePrefix :: string

text \<open>Of \<open>Config\<close> the formatter reads the field \<open>Formatter\<close> only.\<close>

record Config =
  Formatter :: FormatterConfig

definition DefaultConfig :: Config where
  "DefaultConfig = \<lparr>Formatter = \<lparr>IndentStyle = ''tab'', TabWidth = 4, MaxBlankLines = 2,
     InsertFinalNewline = True, TrimTrailingWhitespace = True, AlignAssignments = True,
     AssignmentSpacing = ''space'', SortPrerequisites = False,
     AlignBackslashContinuations = True, BackslashColumn = 79, SpaceAfterComment = True,
     IndentConditionals = True, ConditionalIndent = 2, RecipePrefix = ''preserve''\<rparr>\<rparr>"

section \<open>The formatting rules (internal/rules/format)\<close>

text \<open>
  Nodes are values here, so a deep copy is the node itself (\<open>Clone_ident\<close>); the store
  model further below follows the pointers.
\<close>

lemma cloneStrings_ident [simp]: "cloneStrings s = s"
  by (simp add: cloneStrings_def)

lemma clone_ident [simp]: "clone f = f"
  by (simp add: clone_def)

lemma Clone_ident [simp]: "Clone n = n"
  by (induction n) (simp add: map_idI)

lemma size_Children: "c \<in> set (Children n) \<Longrightarrow> size c < size n"
proof (cases n)
  case (Node t l r ch f)
  assume "c \<in> set (Children n)"
  then have "c \<in> set ch" using Node by simp
  then have "size c \<le> size_list size ch" by (simp add: size_list_estimation')
  then show ?thesis using Node by simp
qed

subsection \<open>trim_trailing_whitespace\<close>

definition trimRawLines :: "string \<Rightarrow> string" where
  "trimRawLines raw = strings_Join (map (\<lambda>line. strings_TrimRight line [SP, TAB]) (strings_Split raw)) [NL]"

function trimNode :: "Node \<Rightarrow> Node" where
  "trimNode n =
    (let clone = Clone n;
         f = Fields clone
     in Node (Type clone) (Line clone)
          (if Raw clone \<noteq> [] then trimRawLines (Raw clone) else Raw clone)
          (map trimNode (Children clone))
          (f\<lparr>Text := strings_TrimRight (Text f) [SP, TAB],
             VarValue := strings_TrimRight (VarValue f) [SP, TAB],
             InlineHelp := strings_TrimRight (InlineHelp f) [SP, TAB],
             Condition := strings_TrimRight (Condition f) [SP, TAB]\<rparr>))"
  by pat_completeness auto
termination
  by (relation "measure size") (auto simp: size_Children)

declare trimNode.simps [simp del]

definition TrailingWhitespace_Format :: "Node list \<Rightarrow> FormatterConfig \<Rightarrow> Node list" where
  "TrailingWhitespace_Format ns cfg =
    (if \<not> TrimTrailingWhitespace cfg then ns else map trimNode ns)"

subsection \<open>insert_final_newline\<close>

function dropTrailingBlank :: "Node list \<Rightarrow> Node list" where
  "dropTrailingBlank result =
    (if 0 < length result \<and> Type (last result) = NodeBlankLine
     then dropTrailingBlank (butlast result) else result)"
  by pat_completeness auto
termination
  by (relation "measure length") auto

declare dropTrailingBlank.simps [simp del]

definition FinalNewline_Format :: "Node list \<Rightarrow> FormatterConfig \<Rightarrow> Node list" where
  "FinalNewline_Format ns cfg =
    (if \<not> InsertFinalNewline cfg then ns
     else if length ns = 0 then ns
     else dropTrailingBlank ns)"

subsection \<open>max_blank_lines\<close>

fun blankLinesLoop :: "Node list \<Rightarrow> int \<Rightarrow> int \<Rightarrow> Node list" where
  "blankLinesLoop [] blankCount maxBlank = []"
| "blankLinesLoop (n # ns) blankCount maxBlank =
    (if Type n = NodeBlankLine then
       (if blankCount + 1 \<le> maxBlank then n # blankLinesLoop ns (blankCount + 1) maxBlank
        else blankLinesLoop ns (blankCount + 1) maxBlank)
     else n # blankLinesLoop ns 0 maxBlank)"

definition BlankLines_Format :: "Node list \<Rightarrow> FormatterConfig \<Rightarrow> Node list" where
  "BlankLines_Format ns cfg =
    (if MaxBlankLines cfg < 0 then ns else blankLinesLoop ns 0 (MaxBlankLines cfg))"

subsection \<open>assignment_spacing\<close>

definition normalizeAssignment :: "Node \<Rightarrow> string \<Rightarrow> Node" where
  "normalizeAssignment n mode =
    (let clone = Clone n; f = Fields clone
     in if mode = ''space'' then setRaw clone []
        else if mode = ''no_space''
          then setRaw clone (VarName f @ AssignOp f @ (if VarValue f \<noteq> [] then VarValue f else []))
        else clone)"

definition AssignmentSpacing_Format :: "Node list \<Rightarrow> FormatterConfig \<Rightarrow> Node list" where
  "AssignmentSpacing_Format ns cfg =
    (if AssignmentSpacing cfg = ''preserve'' then ns
     else map (\<lambda>n. if Type n = NodeAssignment then normalizeAssignment n (AssignmentSpacing cfg)
                     else n) ns)"

subsection \<open>align_assignments\<close>

definition bareName :: "Node \<Rightarrow> string" where
  "bareName n = strings_TrimRight (VarName (Fields n)) '' ''"

definition groupMaxLen :: "Node list \<Rightarrow> nat" where
  "groupMaxLen grp =
    foldl (\<lambda>maxLen n. if maxLen < length (bareName n) then length (bareName n) else maxLen) 0 grp"

definition alignNode :: "nat \<Rightarrow> string \<Rightarrow> Node \<Rightarrow> Node" where
  "alignNode maxLen spacingMode n =
    (let clone = Clone n; f = Fields clone;
         name = strings_TrimRight (VarName f) '' '';
         padded = name @ replicate (maxLen - length name) SP
     in if spacingMode = ''no_space''
        then setRaw clone (padded @ AssignOp f @ (if VarValue f \<noteq> [] then VarValue f else []))
        else setRaw (setFields clone (f\<lparr>VarName := padded\<rparr>)) [])"

definition alignGroup :: "Node list \<Rightarrow> string \<Rightarrow> Node list" where
  "alignGroup grp spacingMode = map (alignNode (groupMaxLen grp) spacingMode) grp"

function groupEnd :: "Node list \<Rightarrow> nat \<Rightarrow> nat" where
  "groupEnd result i =
    (if i < length result \<and> Type (result ! i) = NodeAssignment then groupEnd result (i + 1) else i)"
  by pat_completeness auto
termination
  by (relation "measure (\<lambda>(result, i). length result - i)") auto

declare groupEnd.simps [simp del]

lemma groupEnd_ge: "i \<le> groupEnd result i"
proof (induction result i rule: groupEnd.induct)
  case (1 result i)
  show ?case
  proof (cases "i < length result \<and> Type (result ! i) = NodeAssignment")
    case True
    then show ?thesis using "1.IH" by (subst groupEnd.simps) simp
  next
    case False
    then show ?thesis by (subst groupEnd.simps) auto
  qed
qed

lemma groupEnd_gt:
  "i < length result \<Longrightarrow> Type (result ! i) = NodeAssignment \<Longrightarrow> i < groupEnd result i"
  using groupEnd_ge [of "i + 1" result] by (subst groupEnd.simps) simp

lemma groupEnd_le: "i \<le> length result \<Longrightarrow> groupEnd result i \<le> length result"
proof (induction result i rule: groupEnd.induct)
  case (1 result i)
  show ?case
  proof (cases "i < length result \<and> Type (result ! i) = NodeAssignment")
    case True
    then show ?thesis using "1.IH" by (subst groupEnd.simps) simp
  next
    case False
    then show ?thesis using "1.prems" by (subst groupEnd.simps) auto
  qed
qed

text \<open>
  The group is the subslice \<open>result[start:i]\<close>; \<open>alignGroup\<close> stores the clones into it,
  that is into \<open>result\<close> (a copy of the input slice).
\<close>

function alignLoop :: "Node list \<Rightarrow> nat \<Rightarrow> string \<Rightarrow> Node list" where
  "alignLoop result i spacingMode =
    (if i < length result then
       (if Type (result ! i) \<noteq> NodeAssignment then alignLoop result (i + 1) spacingMode
        else
          (let j = groupEnd result i
           in if 1 < j - i
              then alignLoop (take i result @ alignGroup (take (j - i) (drop i result)) spacingMode
                                @ drop j result) j spacingMode
              else alignLoop result j spacingMode))
     else result)"
  by pat_completeness auto
termination
proof (relation "measure (\<lambda>(result, i, spacingMode). length result - i)")
  show "wf (measure (\<lambda>(result, i, spacingMode). length result - i))" by simp
next
  fix result :: "Node list" and i :: nat and spacingMode :: string
  assume "i < length result"
  then show "((result, i + 1, spacingMode), (result, i, spacingMode))
      \<in> measure (\<lambda>(result, i, spacingMode). length result - i)" by simp
next
  fix result :: "Node list" and i j :: nat and spacingMode :: string
  assume a: "i < length result" "\<not> Type (result ! i) \<noteq> NodeAssignment" "j = groupEnd result i"
  then have "i < j" using groupEnd_gt [of i result] by simp
  moreover have "j \<le> length result" using a groupEnd_le [of i result] by simp
  ultimately show "((take i result @ alignGroup (take (j - i) (drop i result)) spacingMode
        @ drop j result, j, spacingMode), (result, i, spacingMode))
      \<in> measure (\<lambda>(result, i, spacingMode). length result - i)"
    using a by (simp add: alignGroup_def)
next
  fix result :: "Node list" and i j :: nat and spacingMode :: string
  assume a: "i < length result" "\<not> Type (result ! i) \<noteq> NodeAssignment" "j = groupEnd result i"
  then have "i < j" using groupEnd_gt [of i result] by simp
  then show "((result, j, spacingMode), (result, i, spacingMode))
      \<in> measure (\<lambda>(result, i, spacingMode). length result - i)"
    using a by simp
qed

declare alignLoop.simps [simp del]

definition AlignAssignments_Format :: "Node list \<Rightarrow> FormatterConfig \<Rightarrow> Node list" where
  "AlignAssignments_Format ns cfg =
    (if \<not> AlignAssignments cfg then ns else alignLoop ns 0 (AssignmentSpacing cfg))"


subsection \<open>align_backslash_continuations\<close>

text \<open>The package's own \<open>hasContinuation\<close>: some line of the raw text ends in a backslash.\<close>

definition format_hasContinuation :: "string \<Rightarrow> bool" where
  "format_hasContinuation raw =
    list_ex (\<lambda>line. strings_HasSuffix (strings_TrimRight line [SP, TAB]) [BSL]) (strings_Split raw)"

text \<open>
  For a line whose trimmed text ends in a backslash, \<open>content\<close> is
  \<open>strings.TrimRight(trimmed[:len(trimmed)-1], " \t")\<close>.
\<close>

definition endsInBackslash :: "string \<Rightarrow> bool" where
  "endsInBackslash line = strings_HasSuffix (strings_TrimRight line [SP, TAB]) [BSL]"

definition content :: "string \<Rightarrow> string" where
  "content line =
    (let trimmed = strings_TrimRight line [SP, TAB]
     in strings_TrimRight (take (length trimmed - 1) trimmed) [SP, TAB])"

definition maxContentWidth :: "string list \<Rightarrow> nat" where
  "maxContentWidth lines =
    foldl (\<lambda>m line. if \<not> endsInBackslash line then m
                      else if m < length (content line) then length (content line) else m) 0 lines"

text \<open>
  \<open>backslashCol\<close>, \<open>targetCol\<close> and \<open>padWidth\<close> are Go \<open>int\<close>s (64 bits, two's
  complement): \<open>targetCol-1-len(content)\<close> wraps around, and \<open>max\<close> compares the
  signed values.
\<close>

definition targetCol :: "string list \<Rightarrow> 64 word \<Rightarrow> 64 word" where
  "targetCol lines backslashCol =
    (if backslashCol = 0 then of_nat (maxContentWidth lines) + 2 else backslashCol)"

definition padWidth :: "64 word \<Rightarrow> string \<Rightarrow> 64 word" where
  "padWidth target c =
    (if sint (target - 1 - of_nat (length c)) < 1 then 1 else target - 1 - of_nat (length c))"

definition alignLine :: "64 word \<Rightarrow> string \<Rightarrow> string" where
  "alignLine target line =
    (if \<not> endsInBackslash line then line
     else content line @ replicate (nat (sint (padWidth target (content line)))) SP @ [BSL])"

definition alignBackslashes :: "Node \<Rightarrow> 64 word \<Rightarrow> Node" where
  "alignBackslashes n backslashCol =
    (let clone = Clone n; lines = strings_Split (Raw clone)
     in setRaw clone (strings_Join (map (alignLine (targetCol lines backslashCol)) lines) [NL]))"

definition BackslashAlign_Format :: "Node list \<Rightarrow> FormatterConfig \<Rightarrow> Node list" where
  "BackslashAlign_Format ns cfg =
    (if \<not> AlignBackslashContinuations cfg then ns
     else map (\<lambda>n. if \<not> format_hasContinuation (Raw n) then n
                     else alignBackslashes n (BackslashColumn cfg)) ns)"

subsection \<open>space_after_comment\<close>

definition shouldNormalize :: "Node \<Rightarrow> bool" where
  "shouldNormalize n =
    (if Prefix (Fields n) \<noteq> ''#'' then False
     else if strings_HasPrefix (strings_TrimSpace (Raw n)) ''#!'' then False
     else if strings_TrimSpace (Raw n) = ''#'' then False
     else True)"

text \<open>\<open>raw[1:]\<close> panics on the empty string: the one failing path of a rule.\<close>

definition normalizeComment :: "Node \<Rightarrow> error + Node" where
  "normalizeComment n =
    (let raw = strings_TrimSpace (Raw n)
     in if 1 < length raw \<and> raw ! 1 = SP then Inr n
        else if raw = [] then Inl SliceOutOfRange
        else (let clone = Clone n
              in Inr (setFields (setRaw clone (''# '' @ drop 1 raw))
                        ((Fields clone)\<lparr>Text := strings_TrimSpace (drop 1 raw)\<rparr>))))"

fun commentSpacingLoop :: "Node list \<Rightarrow> error + Node list" where
  "commentSpacingLoop [] = Inr []"
| "commentSpacingLoop (n # ns) =
    (if Type n = NodeComment \<and> shouldNormalize n then
       (case normalizeComment n of
          Inl e \<Rightarrow> Inl e
        | Inr n' \<Rightarrow> (case commentSpacingLoop ns of Inl e \<Rightarrow> Inl e | Inr r \<Rightarrow> Inr (n' # r)))
     else (case commentSpacingLoop ns of Inl e \<Rightarrow> Inl e | Inr r \<Rightarrow> Inr (n # r)))"

definition CommentSpacing_Format :: "Node list \<Rightarrow> FormatterConfig \<Rightarrow> error + Node list" where
  "CommentSpacing_Format ns cfg = (if \<not> SpaceAfterComment cfg then Inr ns else commentSpacingLoop ns)"

subsection \<open>indent_conditionals\<close>

definition isConditionalOpen :: "string \<Rightarrow> bool" where
  "isConditionalOpen directive =
    (directive = ''ifeq'' \<or> directive = ''ifneq'' \<or> directive = ''ifdef'' \<or> directive = ''ifndef'')"

definition reconstructRaw :: "Node \<Rightarrow> string" where
  "reconstructRaw n =
    (let f = Fields n
     in case Type n of
          NodeAssignment \<Rightarrow>
            VarName f @ '' '' @ AssignOp f @ (if VarValue f \<noteq> [] then '' '' @ VarValue f else [])
        | NodeComment \<Rightarrow> (if Text f \<noteq> [] then Prefix f @ '' '' @ Text f else Prefix f)
        | NodeConditional \<Rightarrow>
            (if Condition f \<noteq> [] then Directive f @ '' '' @ Condition f else Directive f)
        | NodeInclude \<Rightarrow>
            (if 0 < length (Paths f) then IncludeType f @ '' '' @ strings_Join (Paths f) '' ''
             else IncludeType f)
        | NodeRule \<Rightarrow>
            strings_Join (Targets f) '' '' @ '':'' @
            (if 0 < length (Prerequisites f) then '' '' @ strings_Join (Prerequisites f) '' ''
             else []) @
            (if InlineHelp f \<noteq> [] then '' ## '' @ InlineHelp f else [])
        | NodeBlankLine \<Rightarrow> []
        | _ \<Rightarrow> Text f)"

definition applyIndent :: "Node \<Rightarrow> string \<Rightarrow> int \<Rightarrow> Node" where
  "applyIndent n indent level =
    (if level \<le> 0 then n
     else (let prefix = concat (replicate (nat level) indent);
               clone = Clone n;
               raw = (if Raw clone = [] then reconstructRaw clone else Raw clone)
           in setRaw clone (prefix @ raw)))"

fun indentConditionals :: "Node list \<Rightarrow> string \<Rightarrow> int \<Rightarrow> Node list" where
  "indentConditionals [] indent level = []"
| "indentConditionals (n # ns) indent level =
    (if Type n = NodeConditional \<and> isConditionalOpen (Directive (Fields n))
       then applyIndent n indent level # indentConditionals ns indent (level + 1)
     else if Type n = NodeConditional \<and> Directive (Fields n) = ''else''
       then applyIndent n indent (level - 1) # indentConditionals ns indent level
     else if Type n = NodeConditional \<and> Directive (Fields n) = ''endif''
       then (let level' = (if level - 1 < 0 then 0 else level - 1)
             in applyIndent n indent level' # indentConditionals ns indent level')
     else (if 0 < level then applyIndent n indent level else n)
          # indentConditionals ns indent level)"

definition ConditionalIndent_Format :: "Node list \<Rightarrow> FormatterConfig \<Rightarrow> Node list" where
  "ConditionalIndent_Format ns cfg =
    (if \<not> IndentConditionals cfg \<or> ConditionalIndent cfg \<le> 0 then ns
     else indentConditionals ns (replicate (nat (ConditionalIndent cfg)) SP) 0)"

subsection \<open>preserve_banner_comments\<close>

definition BannerPreserve_Format :: "Node list \<Rightarrow> FormatterConfig \<Rightarrow> Node list" where
  "BannerPreserve_Format ns cfg = ns"

section \<open>The engine, the registry and the runner\<close>

text \<open>
  A \<open>FormatRule\<close> has a name and a transformation. A rule that has no failing path is
  total in the model and is entered in the registry under \<open>Inr\<close>.
\<close>

record FormatRule =
  Name :: string
  Format :: "Node list \<Rightarrow> FormatterConfig \<Rightarrow> error + Node list"

fun Run :: "Node list \<Rightarrow> FormatterConfig \<Rightarrow> FormatRule list \<Rightarrow> error + Node list" where
  "Run result cfg [] = Inr result"
| "Run result cfg (rule # rules) =
    (case Format rule result cfg of Inl e \<Rightarrow> Inl e | Inr result' \<Rightarrow> Run result' cfg rules)"

text \<open>The rules in the order in which \<open>init\<close> registers them.\<close>

definition FormatRules :: "FormatRule list" where
  "FormatRules =
    [\<lparr>Name = ''trim_trailing_whitespace'', Format = (\<lambda>ns cfg. Inr (TrailingWhitespace_Format ns cfg))\<rparr>,
     \<lparr>Name = ''insert_final_newline'', Format = (\<lambda>ns cfg. Inr (FinalNewline_Format ns cfg))\<rparr>,
     \<lparr>Name = ''max_blank_lines'', Format = (\<lambda>ns cfg. Inr (BlankLines_Format ns cfg))\<rparr>,
     \<lparr>Name = ''assignment_spacing'', Format = (\<lambda>ns cfg. Inr (AssignmentSpacing_Format ns cfg))\<rparr>,
     \<lparr>Name = ''align_backslash_continuations'', Format = (\<lambda>ns cfg. Inr (BackslashAlign_Format ns cfg))\<rparr>,
     \<lparr>Name = ''space_after_comment'', Format = CommentSpacing_Format\<rparr>,
     \<lparr>Name = ''indent_conditionals'', Format = (\<lambda>ns cfg. Inr (ConditionalIndent_Format ns cfg))\<rparr>,
     \<lparr>Name = ''preserve_banner_comments'', Format = (\<lambda>ns cfg. Inr (BannerPreserve_Format ns cfg))\<rparr>]"

definition formatInput :: "string \<Rightarrow> Config \<Rightarrow> FormatRule list \<Rightarrow> error + string" where
  "formatInput input cfg formatRules =
    (case Parse input of
       Inl e \<Rightarrow> Inl e
     | Inr ns \<Rightarrow>
        (case Run ns (Formatter cfg) formatRules of
           Inl e \<Rightarrow> Inl e
         | Inr formatted \<Rightarrow> Inr (Write formatted)))"


section \<open>The empty input\<close>

lemma Parse_empty: "Parse [] = Inr []"
  by (simp add: Parse_def splitLines_def parseLoop.simps)

lemma Run_FormatRules_empty: "Run [] cfg FormatRules = Inr []"
  by (simp add: FormatRules_def TrailingWhitespace_Format_def FinalNewline_Format_def
      BlankLines_Format_def AssignmentSpacing_Format_def BackslashAlign_Format_def
      CommentSpacing_Format_def ConditionalIndent_Format_def BannerPreserve_Format_def)

text \<open>
  Claim C10. \<open>Parse\<close> of the empty string is the empty node sequence, \<open>Write\<close> of the
  empty sequence is the empty string, and so the whole pipeline maps the empty input to
  the empty output under every configuration: no newline is inserted. The terminator
  is written once per node: a sequence that ends in a node ends in that node's text and
  one newline.
\<close>

theorem empty_input_formats_to_empty:
  "Parse [] = Inr [] \<and> Write [] = [] \<and> formatInput [] cfg FormatRules = Inr []
   \<and> Write (ns @ [n]) = Write ns @ writeNode n @ [NL]"
  by (simp add: Parse_empty Run_FormatRules_empty formatInput_def Write_def)

section \<open>Formatting twice\<close>

text \<open>
  Claim C1 says that formatting the output of the formatter changes nothing. The rule
  \<open>indent_conditionals\<close> prepends the indentation to the \<open>Raw\<close> text of a node inside a
  conditional block without removing the indentation that is there, so each run indents
  a raw line by two more columns. With the default configuration and the registered
  rules, the three lines \<open>ifdef X\<close>, \<open>foo\<close>, \<open>endif\<close> format to \<open>foo\<close> indented by two
  blanks, and that output formats to \<open>foo\<close> indented by four.
\<close>

theorem conditional_indent_not_idempotent:
  "formatInput (''ifdef X'' @ [NL] @ ''foo'' @ [NL] @ ''endif'' @ [NL]) DefaultConfig FormatRules
     = Inr (''ifdef X'' @ [NL] @ ''  foo'' @ [NL] @ ''endif'' @ [NL])
   \<and> formatInput (''ifdef X'' @ [NL] @ ''  foo'' @ [NL] @ ''endif'' @ [NL]) DefaultConfig FormatRules
     = Inr (''ifdef X'' @ [NL] @ ''    foo'' @ [NL] @ ''endif'' @ [NL])"
  by code_simp


section \<open>The parser is total\<close>










text \<open>At most one keyword of a table matches a line.\<close>

lemma keywordMatches_prefix: "keywordMatches t k \<Longrightarrow> \<exists>r. t = k @ r \<and> (r = [] \<or> hd r = SP \<or> hd r = TAB)"
proof -
  assume "keywordMatches t k"
  then consider "t = k" | "take (length k + 1) t = k @ [SP]" | "take (length k + 1) t = k @ [TAB]"
    by (auto simp: keywordMatches_def strings_HasPrefix_def)
  then show ?thesis
  proof cases
    case 1
    then show ?thesis by simp
  next
    case 2
    then have "t = (k @ [SP]) @ drop (length k + 1) t" by (metis append_take_drop_id)
    then have "t = k @ (SP # drop (length k + 1) t)" by simp
    then show ?thesis by (metis list.sel(1))
  next
    case 3
    then have "t = (k @ [TAB]) @ drop (length k + 1) t" by (metis append_take_drop_id)
    then have "t = k @ (TAB # drop (length k + 1) t)" by simp
    then show ?thesis by (metis list.sel(1))
  qed
qed

lemma keywordMatches_firstWord:
  assumes "keywordMatches t k" "SP \<notin> set k" "TAB \<notin> set k"
  shows "takeWhile (\<lambda>c. c \<noteq> SP \<and> c \<noteq> TAB) t = k"
proof -
  obtain r where r: "t = k @ r" "r = [] \<or> hd r = SP \<or> hd r = TAB"
    using keywordMatches_prefix [OF assms(1)] by blast
  have k: "\<forall>c\<in>set k. c \<noteq> SP \<and> c \<noteq> TAB" using assms(2,3) by auto
  have "takeWhile (\<lambda>c. c \<noteq> SP \<and> c \<noteq> TAB) r = []" using r(2) by (cases r) auto
  then show ?thesis using r(1) k by (simp add: takeWhile_append2)
qed

lemma conditional_keyword_noblank:
  "k \<in> set conditionalKeywords \<Longrightarrow> SP \<notin> set k \<and> TAB \<notin> set k"
  by (auto simp: conditionalKeywords_def)

lemma include_keyword_noblank:
  "k \<in> set includeKeywords \<Longrightarrow> SP \<notin> set k \<and> TAB \<notin> set k"
  by (auto simp: includeKeywords_def)

lemma conditional_keyword_unique:
  assumes "k1 \<in> set conditionalKeywords" "k2 \<in> set conditionalKeywords"
    "keywordMatches t k1" "keywordMatches t k2"
  shows "k1 = k2"
proof -
  have "takeWhile (\<lambda>c. c \<noteq> SP \<and> c \<noteq> TAB) t = k1"
    using keywordMatches_firstWord [OF assms(3)] conditional_keyword_noblank [OF assms(1)] by simp
  moreover have "takeWhile (\<lambda>c. c \<noteq> SP \<and> c \<noteq> TAB) t = k2"
    using keywordMatches_firstWord [OF assms(4)] conditional_keyword_noblank [OF assms(2)] by simp
  ultimately show ?thesis by simp
qed

lemma include_keyword_unique:
  assumes "k1 \<in> set includeKeywords" "k2 \<in> set includeKeywords"
    "keywordMatches t k1" "keywordMatches t k2"
  shows "k1 = k2"
proof -
  have "takeWhile (\<lambda>c. c \<noteq> SP \<and> c \<noteq> TAB) t = k1"
    using keywordMatches_firstWord [OF assms(3)] include_keyword_noblank [OF assms(1)] by simp
  moreover have "takeWhile (\<lambda>c. c \<noteq> SP \<and> c \<noteq> TAB) t = k2"
    using keywordMatches_firstWord [OF assms(4)] include_keyword_noblank [OF assms(2)] by simp
  ultimately show ?thesis by simp
qed















section \<open>The override form\<close>

text \<open>
  Claim C9 says that the line \<open>override NAME = value\<close> parses to an assignment node
  named \<open>override NAME\<close>. \<open>tryAssignment\<close> alone builds that node, but \<open>classifyLine\<close>
  calls \<open>tryDirective\<close> first, and \<open>override\<close> is a directive keyword: the parser
  returns a directive node whose only field is the text of the line.
\<close>

theorem override_line_is_directive:
  "Parse ''override NAME = value''
     = Inr [Node NodeDirective 1 ''override NAME = value'' [] (noFields\<lparr>Text := ''override NAME = value''\<rparr>)]
   \<and> tryAssignment ''override NAME = value'' ''override NAME = value''
     = Some (Node NodeAssignment 0 ''override NAME = value'' []
          (noFields\<lparr>VarName := ''override NAME'', AssignOp := ''='', VarValue := ''value''\<rparr>))"
  by code_simp


section \<open>Backslash alignment\<close>


lemma strings_Split_nonempty [simp]: "strings_Split s \<noteq> []"
  by (induction s) (auto split: list.splits)












lemma Raw_setRaw [simp]: "Raw (setRaw n r) = r"
  by (cases n) simp














lemma Children_setRaw [simp]: "Children (setRaw n r) = Children n"
  by (cases n) simp

lemma Children_alignBackslashes: "Children (alignBackslashes n col) = Children n"
  by (simp add: alignBackslashes_def Let_def)

lemma Children_BackslashAlign_Format:
  "i < length ns \<Longrightarrow> Children (BackslashAlign_Format ns cfg ! i) = Children (ns ! i)"
  by (simp add: BackslashAlign_Format_def Children_alignBackslashes)





section \<open>Assignment alignment\<close>

text \<open>
  \<open>alignRuns\<close> describes the loop of \<open>AlignAssignments.Format\<close> by recursion on the
  list: a node that is no assignment is kept, a maximal run of assignments is aligned
  when it has more than one node. It is used in the proofs only; \<open>alignLoop_alignRuns\<close>
  shows that the loop over indices computes it.
\<close>

definition isAssignment :: "Node \<Rightarrow> bool" where
  "isAssignment n = (Type n = NodeAssignment)"

function alignRuns :: "Node list \<Rightarrow> string \<Rightarrow> Node list" where
  "alignRuns [] spacingMode = []"
| "alignRuns (n # ns) spacingMode =
    (if \<not> isAssignment n then n # alignRuns ns spacingMode
     else (if 1 < length (takeWhile isAssignment (n # ns))
           then alignGroup (takeWhile isAssignment (n # ns)) spacingMode
           else takeWhile isAssignment (n # ns))
          @ alignRuns (dropWhile isAssignment (n # ns)) spacingMode)"
  by pat_completeness auto
termination
proof (relation "measure (\<lambda>(ns, spacingMode). length ns)")
  show "wf (measure (\<lambda>(ns, spacingMode). length ns))" by simp
next
  fix n :: Node and ns :: "Node list" and spacingMode :: string
  show "((ns, spacingMode), (n # ns, spacingMode)) \<in> measure (\<lambda>(ns, spacingMode). length ns)"
    by simp
next
  fix n :: Node and ns :: "Node list" and spacingMode :: string
  assume "\<not> \<not> isAssignment n"
  then have "length (dropWhile isAssignment (n # ns)) \<le> length ns"
    by (simp add: length_dropWhile_le)
  then show "((dropWhile isAssignment (n # ns), spacingMode), (n # ns, spacingMode))
      \<in> measure (\<lambda>(ns, spacingMode). length ns)"
    by simp
qed

declare alignRuns.simps(2) [simp del]

lemma length_alignGroup [simp]: "length (alignGroup grp spacingMode) = length grp"
  by (simp add: alignGroup_def)

lemma length_alignRuns [simp]: "length (alignRuns ns spacingMode) = length ns"
proof (induction ns spacingMode rule: alignRuns.induct)
  case (1 spacingMode)
  then show ?case by simp
next
  case (2 n ns spacingMode)
  show ?case
  proof (cases "isAssignment n")
    case False
    then show ?thesis using 2 by (simp add: alignRuns.simps(2))
  next
    case True
    have "length (takeWhile isAssignment ns) + length (dropWhile isAssignment ns) = length ns"
      by (metis length_append takeWhile_dropWhile_id)
    then show ?thesis using True "2.IH"(2) by (auto simp: alignRuns.simps(2))
  qed
qed

lemma groupEnd_takeWhile:
  "i \<le> length result \<Longrightarrow> groupEnd result i = i + length (takeWhile isAssignment (drop i result))"
proof (induction result i rule: groupEnd.induct)
  case (1 result i)
  show ?case
  proof (cases "i < length result \<and> Type (result ! i) = NodeAssignment")
    case True
    then have d: "drop i result = result ! i # drop (i + 1) result"
      by (simp add: Cons_nth_drop_Suc)
    have "groupEnd result (i + 1) = i + 1 + length (takeWhile isAssignment (drop (i + 1) result))"
      using "1.IH" True by simp
    then show ?thesis using True d by (subst groupEnd.simps) (simp add: isAssignment_def)
  next
    case False
    show ?thesis
    proof (cases "i < length result")
      case True
      then have d: "drop i result = result ! i # drop (i + 1) result"
        by (simp add: Cons_nth_drop_Suc)
      then show ?thesis using False True by (subst groupEnd.simps) (simp add: isAssignment_def)
    next
      case False
      then show ?thesis using "1.prems" by (subst groupEnd.simps) simp
    qed
  qed
qed

lemma take_length_takeWhile: "take (length (takeWhile P xs)) xs = takeWhile P xs"
  by (induction xs) auto

lemma drop_length_takeWhile: "drop (length (takeWhile P xs)) xs = dropWhile P xs"
  by (induction xs) auto

lemma take_length_append: "length xs = n \<Longrightarrow> take n (xs @ ys) = xs"
  by simp

lemma drop_length_append: "length xs = n \<Longrightarrow> drop n (xs @ ys) = ys"
  by simp

lemma alignLoop_alignRuns:
  "i \<le> length result \<Longrightarrow>
   alignLoop result i spacingMode = take i result @ alignRuns (drop i result) spacingMode"
proof (induction result i spacingMode rule: alignLoop.induct)
  case (1 result i spacingMode)
  show ?case
  proof (cases "i < length result")
    case False
    then show ?thesis using "1.prems" by (subst alignLoop.simps) simp
  next
    case lt: True
    then have d: "drop i result = result ! i # drop (i + 1) result"
      by (simp add: Cons_nth_drop_Suc)
    show ?thesis
    proof (cases "Type (result ! i) \<noteq> NodeAssignment")
      case True
      have "alignLoop result (i + 1) spacingMode
          = take (i + 1) result @ alignRuns (drop (i + 1) result) spacingMode"
        using "1.IH"(1) [OF lt True] lt by simp
      then show ?thesis using lt True d
        by (subst alignLoop.simps) (simp add: take_Suc_conv_app_nth alignRuns.simps(2) isAssignment_def)
    next
      case False
      let ?j = "groupEnd result i"
      let ?g = "takeWhile isAssignment (drop i result)"
      have j: "?j = i + length ?g" using groupEnd_takeWhile [of i result] lt by simp
      have jle: "?j \<le> length result" using groupEnd_le [of i result] lt by simp
      have g: "take (?j - i) (drop i result) = ?g"
        using j by (simp add: take_length_takeWhile)
      have dr: "drop ?j result = dropWhile isAssignment (drop i result)"
      proof -
        have "drop ?j result = drop (length ?g + i) result" using j by (simp add: add.commute)
        also have "\<dots> = drop (length ?g) (drop i result)" by (simp only: drop_drop)
        also have "\<dots> = dropWhile isAssignment (drop i result)" by (rule drop_length_takeWhile)
        finally show ?thesis .
      qed
      have tk: "take ?j result = take i result @ ?g"
      proof -
        have "take ?j result = take i result @ take (length ?g) (drop i result)"
          using j by (simp add: take_add)
        then show ?thesis by (simp add: take_length_takeWhile)
      qed
      have isA: "isAssignment (result ! i)" using False by (simp add: isAssignment_def)
      have runs: "alignRuns (drop i result) spacingMode
            = (if 1 < length ?g then alignGroup ?g spacingMode else ?g)
              @ alignRuns (drop ?j result) spacingMode"
      proof -
        have "alignRuns (result ! i # drop (i + 1) result) spacingMode
            = (if 1 < length (takeWhile isAssignment (result ! i # drop (i + 1) result))
               then alignGroup (takeWhile isAssignment (result ! i # drop (i + 1) result)) spacingMode
               else takeWhile isAssignment (result ! i # drop (i + 1) result))
              @ alignRuns (dropWhile isAssignment (result ! i # drop (i + 1) result)) spacingMode"
          using isA by (subst alignRuns.simps(2)) (simp only: simp_thms if_False if_True)
        then show ?thesis unfolding d [symmetric] dr .
      qed
      have ji: "?j - i = length ?g" using j by simp
      show ?thesis
      proof (cases "1 < ?j - i")
        case True
        let ?r = "take i result @ alignGroup (take (?j - i) (drop i result)) spacingMode @ drop ?j result"
        have len: "length (take i result @ alignGroup ?g spacingMode) = ?j"
          using lt j by simp
        have r: "?r = (take i result @ alignGroup ?g spacingMode) @ drop ?j result"
          using g by simp
        have "?j \<le> length ?r" using jle lt j g by simp
        then have "alignLoop ?r ?j spacingMode = take ?j ?r @ alignRuns (drop ?j ?r) spacingMode"
          using "1.IH"(2) [OF lt False refl True] by simp
        moreover have "take ?j ?r = take i result @ alignGroup ?g spacingMode"
          unfolding r by (rule take_length_append [OF len])
        moreover have "drop ?j ?r = drop ?j result"
          unfolding r by (rule drop_length_append [OF len])
        ultimately have "alignLoop ?r ?j spacingMode
            = take i result @ alignGroup ?g spacingMode @ alignRuns (drop ?j result) spacingMode"
          by simp
        then show ?thesis using lt False True runs ji
          by (subst alignLoop.simps) (simp add: Let_def)
      next
        case F2: False
        have "alignLoop result ?j spacingMode = take ?j result @ alignRuns (drop ?j result) spacingMode"
          using "1.IH"(3) [OF lt False refl F2] jle by simp
        then show ?thesis using lt False F2 tk runs ji
          by (subst alignLoop.simps) (simp add: Let_def)
      qed
    qed
  qed
qed

lemma alignRuns_group:
  assumes "grp \<noteq> []" "list_all isAssignment grp" "post = [] \<or> \<not> isAssignment (hd post)"
  shows "alignRuns (grp @ post) spacingMode =
      (if 1 < length grp then alignGroup grp spacingMode else grp) @ alignRuns post spacingMode"
proof -
  obtain n ns where grp: "grp = n # ns" using assms(1) by (cases grp) auto
  have all: "\<forall>x\<in>set grp. isAssignment x" using assms(2) by (simp add: list_all_iff)
  have tw: "takeWhile isAssignment (grp @ post) = grp"
  proof (cases post)
    case Nil
    then show ?thesis using all by simp
  next
    case (Cons y ys)
    then show ?thesis using all assms(3) by (simp add: takeWhile_append2)
  qed
  have dw: "dropWhile isAssignment (grp @ post) = post"
  proof (cases post)
    case Nil
    then show ?thesis using all by simp
  next
    case (Cons y ys)
    then show ?thesis using all assms(3) by (simp add: dropWhile_append2)
  qed
  have "isAssignment n" using all grp by simp
  then have "alignRuns ((n # ns) @ post) spacingMode =
      (if 1 < length (takeWhile isAssignment ((n # ns) @ post))
       then alignGroup (takeWhile isAssignment ((n # ns) @ post)) spacingMode
       else takeWhile isAssignment ((n # ns) @ post))
      @ alignRuns (dropWhile isAssignment ((n # ns) @ post)) spacingMode"
    unfolding append_Cons by (subst alignRuns.simps(2)) (simp only: simp_thms if_False if_True)
  then show ?thesis unfolding grp [symmetric] tw dw .
qed

lemma alignRuns_prefix:
  "pre = [] \<or> \<not> isAssignment (last pre) \<Longrightarrow>
   alignRuns (pre @ rest) spacingMode = alignRuns pre spacingMode @ alignRuns rest spacingMode"
proof (induction pre spacingMode rule: alignRuns.induct)
  case (1 spacingMode)
  then show ?case by simp
next
  case (2 n ns spacingMode)
  have lastn: "\<not> isAssignment (last (n # ns))" using "2.prems" by simp
  show ?case
  proof (cases "isAssignment n")
    case False
    have "ns = [] \<or> \<not> isAssignment (last ns)" using lastn by (cases ns) auto
    then have "alignRuns (ns @ rest) spacingMode = alignRuns ns spacingMode @ alignRuns rest spacingMode"
      using "2.IH"(1) False by simp
    then show ?thesis using False by (simp add: alignRuns.simps(2))
  next
    case True
    have ex: "\<exists>x\<in>set (n # ns). \<not> isAssignment x" using lastn last_in_set [of "n # ns"] by blast
    have tw: "takeWhile isAssignment ((n # ns) @ rest) = takeWhile isAssignment (n # ns)"
      using ex by (metis takeWhile_append1)
    have dw: "dropWhile isAssignment ((n # ns) @ rest) = dropWhile isAssignment (n # ns) @ rest"
      using ex by (metis dropWhile_append1)
    have ne: "dropWhile isAssignment (n # ns) \<noteq> []" using ex by (simp add: dropWhile_eq_Nil_conv)
    have "last (dropWhile isAssignment (n # ns)) = last (n # ns)"
      using ne by (metis last_appendR takeWhile_dropWhile_id)
    then have "\<not> isAssignment (last (dropWhile isAssignment (n # ns)))" using lastn by simp
    then have ih: "alignRuns (dropWhile isAssignment (n # ns) @ rest) spacingMode
        = alignRuns (dropWhile isAssignment (n # ns)) spacingMode @ alignRuns rest spacingMode"
      using "2.IH"(2) True by simp
    have a: "alignRuns ((n # ns) @ rest) spacingMode =
      (if 1 < length (takeWhile isAssignment ((n # ns) @ rest))
       then alignGroup (takeWhile isAssignment ((n # ns) @ rest)) spacingMode
       else takeWhile isAssignment ((n # ns) @ rest))
      @ alignRuns (dropWhile isAssignment ((n # ns) @ rest)) spacingMode"
      using True unfolding append_Cons
      by (subst alignRuns.simps(2)) (simp only: simp_thms if_False if_True)
    have b: "alignRuns (n # ns) spacingMode =
      (if 1 < length (takeWhile isAssignment (n # ns))
       then alignGroup (takeWhile isAssignment (n # ns)) spacingMode
       else takeWhile isAssignment (n # ns))
      @ alignRuns (dropWhile isAssignment (n # ns)) spacingMode"
      using True by (subst alignRuns.simps(2)) (simp only: simp_thms if_False if_True)
    show ?thesis unfolding a b tw dw ih by simp
  qed
qed

lemma AlignAssignments_Format_runs:
  "AlignAssignments cfg \<Longrightarrow> AlignAssignments_Format ns cfg = alignRuns ns (AssignmentSpacing cfg)"
  using alignLoop_alignRuns [of 0 ns "AssignmentSpacing cfg"]
  by (simp add: AlignAssignments_Format_def)

lemma AlignAssignments_Format_group:
  assumes "AlignAssignments cfg" "grp \<noteq> []" "list_all isAssignment grp"
    "pre = [] \<or> \<not> isAssignment (last pre)" "post = [] \<or> \<not> isAssignment (hd post)"
    "i < length grp"
  shows "AlignAssignments_Format (pre @ grp @ post) cfg ! (length pre + i) =
      (if 1 < length grp then alignNode (groupMaxLen grp) (AssignmentSpacing cfg) (grp ! i) else grp ! i)"
proof -
  let ?m = "AssignmentSpacing cfg"
  have "AlignAssignments_Format (pre @ grp @ post) cfg =
      alignRuns pre ?m @ (if 1 < length grp then alignGroup grp ?m else grp) @ alignRuns post ?m"
    using assms by (simp add: AlignAssignments_Format_runs alignRuns_prefix alignRuns_group)
  then have "AlignAssignments_Format (pre @ grp @ post) cfg ! (length pre + i) =
      (if 1 < length grp then alignGroup grp ?m else grp) ! i"
    using assms(6) by (simp add: nth_append)
  then show ?thesis using assms(6) by (simp add: alignGroup_def)
qed

lemma foldl_maxLen_ge: "m \<le> foldl (\<lambda>maxLen n. if maxLen < length (bareName n) then length (bareName n) else maxLen) m grp"
  by (induction grp arbitrary: m) (auto intro: order_trans less_imp_le)

lemma bareName_le_aux:
  "n \<in> set grp \<Longrightarrow>
   length (bareName n) \<le> foldl (\<lambda>maxLen n. if maxLen < length (bareName n) then length (bareName n) else maxLen) m grp"
proof (induction grp arbitrary: m)
  case Nil
  then show ?case by simp
next
  case (Cons x xs)
  show ?case
  proof (cases "n = x")
    case True
    have "length (bareName x) \<le> (if m < length (bareName x) then length (bareName x) else m)" by simp
    also have "\<dots> \<le> foldl (\<lambda>maxLen n. if maxLen < length (bareName n) then length (bareName n) else maxLen)
        (if m < length (bareName x) then length (bareName x) else m) xs"
      by (rule foldl_maxLen_ge)
    finally show ?thesis using True by simp
  next
    case False
    then have "n \<in> set xs" using Cons.prems by simp
    then show ?thesis using Cons.IH by simp
  qed
qed

lemma bareName_le_groupMaxLen: "n \<in> set grp \<Longrightarrow> length (bareName n) \<le> groupMaxLen grp"
  unfolding groupMaxLen_def by (rule bareName_le_aux)

lemma writeNode_alignNode_space:
  assumes "Type n = NodeAssignment" "spacingMode \<noteq> ''no_space''"
  shows "writeNode (alignNode m spacingMode n) =
      bareName n @ replicate (m - length (bareName n)) SP @ '' '' @ AssignOp (Fields n)
      @ (if VarValue (Fields n) \<noteq> [] then '' '' @ VarValue (Fields n) else [])
      @ concat (map (\<lambda>child. [NL] @ writeNode child) (Children n))"
  using assms by (cases n) (simp add: alignNode_def Let_def bareName_def writeAssignment_def)

lemma writeNode_alignNode_no_space:
  assumes "AssignOp (Fields n) \<noteq> []"
  shows "writeNode (alignNode m ''no_space'' n) =
      bareName n @ replicate (m - length (bareName n)) SP @ AssignOp (Fields n) @ VarValue (Fields n)
      @ concat (map (\<lambda>child. [NL] @ writeNode child) (Children n))"
  using assms by (cases n) (simp add: alignNode_def Let_def bareName_def)

text \<open>The loop that computes \<open>maxLen\<close> returns the largest length of a bare name.\<close>

lemma foldl_maxLen_mem:
  "foldl (\<lambda>maxLen n. if maxLen < length (bareName n) then length (bareName n) else maxLen) m grp = m
   \<or> (\<exists>n\<in>set grp.
        foldl (\<lambda>maxLen n. if maxLen < length (bareName n) then length (bareName n) else maxLen) m grp
          = length (bareName n))"
proof (induction grp arbitrary: m)
  case Nil
  then show ?case by simp
next
  case (Cons x xs)
  let ?f = "\<lambda>maxLen n. if maxLen < length (bareName n) then length (bareName n) else maxLen"
  have "foldl ?f (?f m x) xs = ?f m x \<or> (\<exists>n\<in>set xs. foldl ?f (?f m x) xs = length (bareName n))"
    by (rule Cons.IH)
  then show ?case
  proof
    assume a: "foldl ?f (?f m x) xs = ?f m x"
    show ?thesis
    proof (cases "m < length (bareName x)")
      case True
      then have "foldl ?f m (x # xs) = length (bareName x)" using a by simp
      then show ?thesis by auto
    next
      case False
      then have "foldl ?f m (x # xs) = m" using a by simp
      then show ?thesis by blast
    qed
  next
    assume "\<exists>n\<in>set xs. foldl ?f (?f m x) xs = length (bareName n)"
    then show ?thesis by auto
  qed
qed

lemma groupMaxLen_Max:
  assumes "grp \<noteq> []"
  shows "groupMaxLen grp = Max ((\<lambda>n. length (bareName n)) ` set grp)"
proof -
  let ?W = "(\<lambda>n. length (bareName n)) ` set grp"
  have fin: "finite ?W" by simp
  have ub: "\<And>w. w \<in> ?W \<Longrightarrow> w \<le> groupMaxLen grp" by (auto simp: bareName_le_groupMaxLen)
  have "groupMaxLen grp \<in> ?W"
  proof -
    consider (zero) "groupMaxLen grp = 0"
      | (mem) n where "n \<in> set grp" "groupMaxLen grp = length (bareName n)"
      using foldl_maxLen_mem [of 0 grp] unfolding groupMaxLen_def [symmetric] by auto
    then show ?thesis
    proof cases
      case zero
      have "hd grp \<in> set grp" using assms by simp
      moreover have "length (bareName (hd grp)) = 0"
        using bareName_le_groupMaxLen [OF \<open>hd grp \<in> set grp\<close>] zero by simp
      ultimately show ?thesis using zero by force
    next
      case mem
      then show ?thesis by blast
    qed
  qed
  then have "Max ?W = groupMaxLen grp" using fin ub by (intro Max_eqI) auto
  then show ?thesis by simp
qed

text \<open>
  Claim C7, as the code has it. The statement is about \<open>AlignAssignments.Format\<close>
  applied to a node sequence, and about what the writer emits for the nodes it returns.
  Let \<open>grp\<close> be a maximal run of consecutive assignment nodes of the input (\<open>pre\<close>
  does not end and \<open>post\<close> does not start with an assignment), \<open>m\<close> the largest
  length of a name of the run without its trailing blanks, and \<open>padded\<close> the name of
  the \<open>i\<close>-th node of the run without trailing blanks, filled with blanks to length
  \<open>m\<close>. A run of one node is left as it is. In a run of two or more nodes the text
  written for the node is \<open>padded\<close>, one blank and the operator when the spacing mode
  is not \<open>no_space\<close>, so the operator begins in column \<open>1 + m\<close> (counted from 0); in
  mode \<open>no_space\<close> the operator follows \<open>padded\<close> directly and begins in column
  \<open>m\<close>. The rule returns as many nodes as it is given.
\<close>

theorem assignment_alignment:
  assumes "AlignAssignments cfg" and "list_all isAssignment grp"
    and "pre = [] \<or> \<not> isAssignment (last pre)" and "post = [] \<or> \<not> isAssignment (hd post)"
    and "i < length grp"
  shows "let m = Max ((\<lambda>n. length (strings_TrimRight (VarName (Fields n)) '' '')) ` set grp);
             n = grp ! i; f = Fields n;
             name = strings_TrimRight (VarName f) '' '';
             out = AlignAssignments_Format (pre @ grp @ post) cfg ! (length pre + i);
             padded = name @ replicate (m - length name) SP;
             kids = concat (map (\<lambda>child. [NL] @ writeNode child) (Children n))
         in length (AlignAssignments_Format (pre @ grp @ post) cfg) = length (pre @ grp @ post) \<and>
            (length grp = 1 \<longrightarrow> out = n) \<and>
            (1 < length grp \<longrightarrow> length padded = m \<and>
               (AssignmentSpacing cfg \<noteq> ''no_space'' \<longrightarrow>
                  writeNode out = padded @ '' '' @ AssignOp f
                    @ (if VarValue f \<noteq> [] then '' '' @ VarValue f else []) @ kids) \<and>
               (AssignmentSpacing cfg = ''no_space'' \<and> AssignOp f \<noteq> [] \<longrightarrow>
                  writeNode out = padded @ AssignOp f @ VarValue f @ kids))"
proof -
  have ne: "grp \<noteq> []" using assms(5) by auto
  have mem: "grp ! i \<in> set grp" using assms(5) by simp
  then have ty: "Type (grp ! i) = NodeAssignment"
    using assms(2) by (auto simp: list_all_iff isAssignment_def)
  have le: "length (bareName (grp ! i)) \<le> groupMaxLen grp"
    using mem by (rule bareName_le_groupMaxLen)
  have mx: "Max ((\<lambda>n. length (strings_TrimRight (VarName (Fields n)) '' '')) ` set grp) = groupMaxLen grp"
    using groupMaxLen_Max [OF ne] by (simp add: bareName_def)
  have bn: "strings_TrimRight (VarName (Fields (grp ! i))) '' '' = bareName (grp ! i)"
    by (simp add: bareName_def)
  have len: "length (AlignAssignments_Format (pre @ grp @ post) cfg) = length (pre @ grp @ post)"
    using assms(1) by (simp add: AlignAssignments_Format_runs)
  have out: "AlignAssignments_Format (pre @ grp @ post) cfg ! (length pre + i) =
      (if 1 < length grp then alignNode (groupMaxLen grp) (AssignmentSpacing cfg) (grp ! i) else grp ! i)"
    by (rule AlignAssignments_Format_group [OF assms(1) ne assms(2,3,4,5)])
  show ?thesis
    unfolding Let_def out mx bn len
    using le ty writeNode_alignNode_space [OF ty, of "AssignmentSpacing cfg" "groupMaxLen grp"]
      writeNode_alignNode_no_space [of "grp ! i" "groupMaxLen grp"]
    by auto
qed

theorem assignment_alignment_witness:
  "writeNode (AlignAssignments_Format
      [Node NodeComment 1 ''# c'' [] (noFields\<lparr>Text := ''c'', Prefix := ''#''\<rparr>),
       Node NodeAssignment 2 ''A:=1'' [] (noFields\<lparr>VarName := ''A'', AssignOp := '':='', VarValue := ''1''\<rparr>),
       Node NodeAssignment 3 ''BBB = 2'' [] (noFields\<lparr>VarName := ''BBB'', AssignOp := ''='', VarValue := ''2''\<rparr>)]
      (Formatter DefaultConfig) ! 1) = ''A   := 1''"
proof -
  let ?c = "Node NodeComment 1 ''# c'' [] (noFields\<lparr>Text := ''c'', Prefix := ''#''\<rparr>)"
  let ?a = "Node NodeAssignment 2 ''A:=1'' [] (noFields\<lparr>VarName := ''A'', AssignOp := '':='', VarValue := ''1''\<rparr>)"
  let ?b = "Node NodeAssignment 3 ''BBB = 2'' [] (noFields\<lparr>VarName := ''BBB'', AssignOp := ''='', VarValue := ''2''\<rparr>)"
  have h1: "AlignAssignments (Formatter DefaultConfig)" by (simp add: DefaultConfig_def)
  have h2: "list_all isAssignment [?a, ?b]" by (simp add: isAssignment_def)
  have h3: "[?c] = [] \<or> \<not> isAssignment (last [?c])" by (simp add: isAssignment_def)
  have h4: "([]::Node list) = [] \<or> \<not> isAssignment (hd [])" by simp
  have h5: "(0::nat) < length [?a, ?b]" by simp
  have e1: "strings_TrimRight (VarName (Fields ?a)) '' '' = ''A''" by code_simp
  have e2: "strings_TrimRight (VarName (Fields ?b)) '' '' = ''BBB''" by code_simp
  have e3: "AssignmentSpacing (Formatter DefaultConfig) = ''space''" by (simp add: DefaultConfig_def)
  have e4: "Max ((\<lambda>n. length (strings_TrimRight (VarName (Fields n)) '' '')) ` set [?a, ?b]) = 3"
    using e1 e2 by simp
  have g: "[?a, ?b] ! 0 = ?a" by simp
  show ?thesis
    using assignment_alignment [OF h1 h2 h3 h4 h5] e1 e3 e4
    by (simp add: Let_def noFields_def eval_nat_numeral)
qed

text \<open>
  The claim as stated fails in two ways. In mode \<open>no_space\<close> the operator begins in
  column \<open>m\<close>, not \<open>1 + m\<close>: the names \<open>A\<close> and \<open>BB\<close> give \<open>m = 2\<close>, and both
  operators begin in column 2. And \<open>init\<close> does not register the rule: with
  \<open>align_assignments\<close> enabled, as it is in the default configuration, the formatter
  runs the eight registered rules and returns the assignments \<open>A\<close> and \<open>BBB\<close> with
  their operators in columns 2 and 4.
\<close>

theorem assignment_alignment_counterexample:
  "Write (AlignAssignments_Format
      [Node NodeAssignment 1 ''A := 1'' [] (noFields\<lparr>VarName := ''A'', AssignOp := '':='', VarValue := ''1''\<rparr>),
       Node NodeAssignment 2 ''BB := 2'' [] (noFields\<lparr>VarName := ''BB'', AssignOp := '':='', VarValue := ''2''\<rparr>)]
      ((Formatter DefaultConfig)\<lparr>AssignmentSpacing := ''no_space''\<rparr>))
    = ''A :=1'' @ [NL] @ ''BB:=2'' @ [NL]
   \<and> AlignAssignments (Formatter DefaultConfig)
   \<and> map Name FormatRules = [''trim_trailing_whitespace'', ''insert_final_newline'', ''max_blank_lines'',
        ''assignment_spacing'', ''align_backslash_continuations'', ''space_after_comment'',
        ''indent_conditionals'', ''preserve_banner_comments'']
   \<and> formatInput (''A:=1'' @ [NL] @ ''BBB=2'' @ [NL]) DefaultConfig FormatRules
       = Inr (''A := 1'' @ [NL] @ ''BBB = 2'' @ [NL])"
  by code_simp


section \<open>Parsing and writing back\<close>



fun entries :: "Node \<Rightarrow> (nat \<times> string) list" where
  "entries (Node t l r ch f) = (l, r) # concat (map entries ch)"












lemma strings_TrimRight_empty [simp]: "strings_TrimRight [] cutset = []"
  by (simp add: strings_TrimRight_def)



lemma trimLeftSpace_empty [simp]: "trimLeftSpace [] = []"
  by (subst trimLeftSpace.simps) (simp add: spaceWidth_def)

lemma trimRightSpace_empty [simp]: "trimRightSpace [] = []"
  by (subst trimRightSpace.simps) (simp add: spaceWidthEnd_def)

lemma strings_TrimSpace_empty [simp]: "strings_TrimSpace [] = []"
  by (simp add: strings_TrimSpace_def)


lemma Type_mkNode [simp]: "Type (mkNode t raw f) = t"
  by (simp add: mkNode_def)











lemma entries_setType [simp]: "entries (setType node t) = entries node"
  by (cases node) simp







lemma Raw_setLine [simp]: "Raw (setLine n l) = Raw n"
  by (cases n) simp

lemma Children_setLine [simp]: "Children (setLine n l) = Children n"
  by (cases n) simp

lemma Type_setLine [simp]: "Type (setLine n l) = Type n"
  by (cases n) simp

lemma Line_setLine [simp]: "Line (setLine n l) = l"
  by (cases n) simp















end
